theory Spec2Isabelle
  imports Complex_Main
begin

section \<open>Python strings\<close>

text \<open>
  A Python \<^verbatim>\<open>str\<close> is modelled as a \<^typ>\<open>string\<close>, one \<^typ>\<open>char\<close> per character.
  The model covers ASCII text: \<^verbatim>\<open>str.lower\<close> maps the letters A..Z to a..z and leaves
  every other character alone, and \<^verbatim>\<open>str.split()\<close> separates at the ASCII whitespace
  characters (tab, line feed, vertical tab, form feed, carriage return, the four
  separators 0x1C..0x1F and the space).
\<close>

definition lower_char :: "char \<Rightarrow> char" where
  "lower_char c =
     (case map_of (zip ''ABCDEFGHIJKLMNOPQRSTUVWXYZ'' ''abcdefghijklmnopqrstuvwxyz'') c of
        Some l \<Rightarrow> l
      | None \<Rightarrow> c)"

definition lower :: "string \<Rightarrow> string" where
  "lower s = map lower_char s"

definition is_space :: "char \<Rightarrow> bool" where
  "is_space c =
     (c \<in> set [CHR 0x09, CHR 0x0A, CHR 0x0B, CHR 0x0C, CHR 0x0D,
                CHR 0x1C, CHR 0x1D, CHR 0x1E, CHR 0x1F, CHR '' ''])"

text \<open>
  \<^verbatim>\<open>s.split()\<close>: the maximal runs of non-whitespace characters, left to right.
  \<open>split_from cur s\<close> scans \<open>s\<close> with the current word \<open>cur\<close> held in reverse.
\<close>

fun split_from :: "string \<Rightarrow> string \<Rightarrow> string list" where
  "split_from cur [] = (if cur = [] then [] else [rev cur])"
| "split_from cur (c # cs) =
     (if is_space c
      then (if cur = [] then split_from [] cs else rev cur # split_from [] cs)
      else split_from (c # cur) cs)"

definition split :: "string \<Rightarrow> string list" where
  "split s = split_from [] s"

text \<open>\<^verbatim>\<open>s.startswith(p)\<close>.\<close>

fun starts_with :: "string \<Rightarrow> string \<Rightarrow> bool" where
  "starts_with s [] = True"
| "starts_with [] (p # ps) = False"
| "starts_with (c # cs) (p # ps) = (c = p \<and> starts_with cs ps)"

text \<open>\<^verbatim>\<open>sub in s\<close>: \<open>sub\<close> occurs in \<open>s\<close> as a contiguous substring.\<close>

fun str_in :: "string \<Rightarrow> string \<Rightarrow> bool" where
  "str_in sub [] = (sub = [])"
| "str_in sub (c # cs) = (starts_with (c # cs) sub \<or> str_in sub cs)"

text \<open>
  \<^verbatim>\<open>s.count(sub)\<close>: the number of non-overlapping occurrences of \<open>sub\<close> in \<open>s\<close>,
  found left to right; after a match the scan resumes behind it (\<open>skip\<close> counts the
  characters of the match still to be passed over). The empty string occurs
  \<open>len(s) + 1\<close> times.
\<close>

fun count_from :: "string \<Rightarrow> nat \<Rightarrow> string \<Rightarrow> nat" where
  "count_from sub skip [] = 0"
| "count_from sub skip (c # cs) =
     (if 0 < skip then count_from sub (skip - 1) cs
      else if starts_with (c # cs) sub then 1 + count_from sub (length sub - 1) cs
      else count_from sub 0 cs)"

definition str_count :: "string \<Rightarrow> string \<Rightarrow> nat" where
  "str_count s sub = (if sub = [] then length s + 1 else count_from sub 0 s)"

text \<open>\<^verbatim>\<open>sep.join(parts)\<close>.\<close>

fun join :: "string \<Rightarrow> string list \<Rightarrow> string" where
  "join sep [] = []"
| "join sep [p] = p"
| "join sep (p # q # ps) = p @ sep @ join sep (q # ps)"

text \<open>
  \<^verbatim>\<open>xs[:k]\<close> for a Python integer \<open>k\<close>: the first \<open>k\<close> elements, and for a negative
  \<open>k\<close> all but the last \<open>-k\<close>.
\<close>

definition slice_to :: "int \<Rightarrow> 'a list \<Rightarrow> 'a list" where
  "slice_to k xs = (if 0 \<le> k then take (nat k) xs else take (length xs - nat (- k)) xs)"

text \<open>\<^verbatim>\<open>str(i)\<close> for the positive counter of \<^verbatim>\<open>enumerate(..., 1)\<close>.\<close>

definition digit_char :: "nat \<Rightarrow> char" where
  "digit_char d = ''0123456789'' ! d"

fun str_of_nat_fuel :: "nat \<Rightarrow> nat \<Rightarrow> string" where
  "str_of_nat_fuel 0 n = [digit_char (n mod 10)]"
| "str_of_nat_fuel (Suc f) n =
     (if n < 10 then [digit_char n] else str_of_nat_fuel f (n div 10) @ [digit_char (n mod 10)])"

definition str_of_nat :: "nat \<Rightarrow> string" where
  "str_of_nat n = str_of_nat_fuel n n"

section \<open>The corpus (models.py)\<close>

text \<open>
  A row of \<^verbatim>\<open>ScrapedContent\<close>. Every writer of the table stores a string title, so the
  title is a string here.
\<close>

record scraped_content =
  sc_id :: int
  sc_url :: string
  sc_title :: string
  sc_content :: string
  sc_content_type :: string

text \<open>
  \<^verbatim>\<open>ScrapedContent.query.all()\<close> either raises (the database cannot be reached) or
  returns the rows in table order.
\<close>

datatype py_error = Exception string

type_synonym corpus = "py_error + scraped_content list"

section \<open>Keyword search (ai\_assistant\_simple.simple\_search)\<close>

text \<open>
  A scored result. The dictionary the source builds also copies the row's id, url,
  title, content (under the key \<^verbatim>\<open>text\<close>) and content type; they are read from
  \<open>hit_content\<close> here.
\<close>

record search_hit =
  hit_content :: scraped_content
  hit_score :: int

definition hit_url :: "search_hit \<Rightarrow> string" where
  "hit_url h = sc_url (hit_content h)"

definition hit_title :: "search_hit \<Rightarrow> string" where
  "hit_title h = sc_title (hit_content h)"

definition hit_text :: "search_hit \<Rightarrow> string" where
  "hit_text h = sc_content (hit_content h)"

text \<open>\<^verbatim>\<open>f"{content.title} {content.content}".lower()\<close>\<close>

definition doc_text :: "scraped_content \<Rightarrow> string" where
  "doc_text c = lower (sc_title c @ '' '' @ sc_content c)"

text \<open>
  The nine \<^verbatim>\<open>if "p" in question.lower() and "p" in text: score += w\<close> statements, in
  source order.
\<close>

definition phrase_bonus :: "string \<Rightarrow> int \<Rightarrow> string \<Rightarrow> string \<Rightarrow> int \<Rightarrow> int" where
  "phrase_bonus p w question text score =
     (if str_in p (lower question) \<and> str_in p text then score + w else score)"

definition phrase_matching :: "string \<Rightarrow> string \<Rightarrow> int" where
  "phrase_matching question text =
     (let score = 0;
          score = phrase_bonus ''gpt-3.5-turbo'' 20 question text score;
          score = phrase_bonus ''gpt-4o-mini'' 15 question text score;
          score = phrase_bonus ''ga4'' 20 question text score;
          score = phrase_bonus ''dashboard'' 15 question text score;
          score = phrase_bonus ''bonus'' 15 question text score;
          score = phrase_bonus ''docker'' 20 question text score;
          score = phrase_bonus ''podman'' 20 question text score;
          score = phrase_bonus ''sep 2025'' 20 question text score;
          score = phrase_bonus ''exam'' 15 question text score
      in score)"

text \<open>
  \<^verbatim>\<open>question_words = set(question.lower().split())\<close>: the distinct words. The loop
  over the set only adds to \<open>score\<close>, so the order of iteration does not matter; the
  model visits the words in order of first occurrence.
\<close>

definition question_words :: "string \<Rightarrow> string list" where
  "question_words question = remdups (split (lower question))"

fun word_matching :: "string list \<Rightarrow> string \<Rightarrow> int \<Rightarrow> int" where
  "word_matching [] text score = score"
| "word_matching (word # ws) text score =
     word_matching ws text
       (if 2 < length word then score + int (str_count text word) else score)"

definition doc_score :: "string \<Rightarrow> scraped_content \<Rightarrow> int" where
  "doc_score question c =
     (let text = doc_text c
      in word_matching (question_words question) text (phrase_matching question text))"

text \<open>The loop over the rows: a row is appended when its score is positive.\<close>

fun score_contents :: "string \<Rightarrow> scraped_content list \<Rightarrow> search_hit list \<Rightarrow> search_hit list" where
  "score_contents question [] scored_results = scored_results"
| "score_contents question (c # cs) scored_results =
     (let score = doc_score question c
      in score_contents question cs
           (if 0 < score
            then scored_results @ [\<lparr>hit_content = c, hit_score = score\<rparr>]
            else scored_results))"

text \<open>
  \<^verbatim>\<open>xs.sort(key=lambda x: x['score'], reverse=True)\<close>: Python's sort is stable, and with
  \<^verbatim>\<open>reverse=True\<close> elements of equal key still keep their order.
\<close>

definition sort_by_score_desc :: "search_hit list \<Rightarrow> search_hit list" where
  "sort_by_score_desc hits = sort_key (\<lambda>h. - hit_score h) hits"

text \<open>The body of the \<^verbatim>\<open>try\<close> block: it raises when the query raises.\<close>

definition simple_search_body :: "corpus \<Rightarrow> string \<Rightarrow> int \<Rightarrow> py_error + search_hit list" where
  "simple_search_body db question top_k =
     (case db of
        Inl e \<Rightarrow> Inl e
      | Inr contents \<Rightarrow>
          if contents = [] then Inr []
          else Inr (slice_to top_k (sort_by_score_desc (score_contents question contents []))))"

text \<open>\<^verbatim>\<open>except Exception: return []\<close>\<close>

definition simple_search :: "corpus \<Rightarrow> string \<Rightarrow> int \<Rightarrow> search_hit list" where
  "simple_search db question top_k =
     (case simple_search_body db question top_k of Inl e \<Rightarrow> [] | Inr hits \<Rightarrow> hits)"

section \<open>Link ranking (rank\_and\_filter\_links)\<close>

text \<open>
  \<^verbatim>\<open>ai_assistant_simple.py\<close> and \<^verbatim>\<open>ai_assistant.py\<close> hold the same function, line for
  line; one model serves both. A link is the dictionary \<^verbatim>\<open>{"url": ..., "text": ...}\<close>.
\<close>

record link =
  link_url :: string
  link_text :: string

text \<open>The loop over the question's words (all of them, repeated words included).\<close>

fun title_relevance :: "string list \<Rightarrow> string \<Rightarrow> int \<Rightarrow> int" where
  "title_relevance [] title_lower score = score"
| "title_relevance (word # ws) title_lower score =
     title_relevance ws title_lower
       (if 3 < length word \<and> str_in word title_lower then score + 1 else score)"

text \<open>The body of the loop over the links: the score of one link.\<close>

definition link_score :: "string \<Rightarrow> string \<Rightarrow> link \<Rightarrow> int" where
  "link_score question answer l =
     (let question_lower = lower question;
          answer_lower = lower answer;
          score = 0;
          title_lower = lower (link_text l);
          score = title_relevance (split question_lower) title_lower score
      in if str_in (link_url l) answer \<or> str_in (lower (link_text l)) answer_lower
         then score + 2 else score)"

fun score_links :: "string \<Rightarrow> string \<Rightarrow> link list \<Rightarrow> (link \<times> int) list \<Rightarrow> (link \<times> int) list" where
  "score_links question answer [] scored_links = scored_links"
| "score_links question answer (l # ls) scored_links =
     score_links question answer ls (scored_links @ [(l, link_score question answer l)])"

definition rank_and_filter_links :: "link list \<Rightarrow> string \<Rightarrow> string \<Rightarrow> link list" where
  "rank_and_filter_links links question answer =
     (if links = [] then []
      else let scored_links = score_links question answer links [];
               scored_links = sort_key (\<lambda>x. - snd x) scored_links
           in map fst (filter (\<lambda>x. 0 < snd x) scored_links))"

section \<open>The fallback answer (generate\_fallback\_answer)\<close>

record answer_result =
  ar_answer :: string
  ar_links :: "link list"

text \<open>\<^verbatim>\<open>if image_base64:\<close> holds for a string that is neither \<^verbatim>\<open>None\<close> nor empty.\<close>

definition truthy :: "string option \<Rightarrow> bool" where
  "truthy s = (case s of None \<Rightarrow> False | Some v \<Rightarrow> v \<noteq> [])"

definition nothing_found_message :: string where
  "nothing_found_message =
     ''I couldn't find specific information about your question in the course materials. '' @
     ''Please try rephrasing your question or check the course resources directly.''"

definition image_note :: string where
  "image_note =
     ''Note: I can see you've included an image, but I need AI functionality to analyze it. '' @
     ''Please describe what's in the image so I can help better.''"

definition fallback_header :: string where
  "fallback_header = ''Based on the course materials I found:'' @ [CHR 0x0A]"

text \<open>
  \<^verbatim>\<open>result['text'][:200] + "..." if len(result['text']) > 200 else result['text']\<close>
\<close>

definition content_snippet :: "search_hit \<Rightarrow> string" where
  "content_snippet result =
     (if 200 < length (hit_text result) then take 200 (hit_text result) @ ''...''
      else hit_text result)"

text \<open>\<^verbatim>\<open>f"{i}. From '{result['title']}':"\<close>\<close>

definition excerpt_label :: "nat \<Rightarrow> search_hit \<Rightarrow> string" where
  "excerpt_label i result =
     str_of_nat i @ ''. From '' @ [CHR 0x27] @ hit_title result @ [CHR 0x27] @ '':''"

definition hit_link :: "search_hit \<Rightarrow> link" where
  "hit_link result = \<lparr>link_url = hit_url result, link_text = hit_title result\<rparr>"

text \<open>The loop \<^verbatim>\<open>for i, result in enumerate(search_results[:3], 1)\<close>.\<close>

fun fallback_loop :: "nat \<Rightarrow> search_hit list \<Rightarrow> string list \<Rightarrow> link list \<Rightarrow> string list \<times> link list" where
  "fallback_loop i [] answer_parts relevant_links = (answer_parts, relevant_links)"
| "fallback_loop i (result # rs) answer_parts relevant_links =
     fallback_loop (i + 1) rs
       (answer_parts @ [excerpt_label i result, ''   '' @ content_snippet result, []])
       (relevant_links @ [hit_link result])"

text \<open>
  No statement of the \<^verbatim>\<open>try\<close> block can raise (\<open>simple_search\<close> handles its own
  failures), so the handler of \<^verbatim>\<open>generate_fallback_answer\<close> is never entered.
\<close>

definition generate_fallback_answer :: "corpus \<Rightarrow> string \<Rightarrow> string option \<Rightarrow> answer_result" where
  "generate_fallback_answer db question image_base64 =
     (let search_results = simple_search db question 3
      in if search_results = []
         then \<lparr>ar_answer = nothing_found_message, ar_links = []\<rparr>
         else
           let (answer_parts, relevant_links) =
                 fallback_loop 1 (slice_to 3 search_results) [fallback_header] [];
               answer_parts =
                 (if truthy image_base64 then answer_parts @ [image_note] else answer_parts)
           in \<lparr>ar_answer = join [CHR 0x0A] answer_parts, ar_links = relevant_links\<rparr>)"

section \<open>Answering (ai\_assistant\_simple.answer\_question)\<close>

text \<open>
  The generation capability. A request carries the system message, the user text and
  the image URL when an image was supplied. The call either raises or yields
  \<^verbatim>\<open>response.choices[0].message.content\<close>, which may be \<^verbatim>\<open>None\<close>.
\<close>

record chat_request =
  req_system :: string
  req_user_text :: string
  req_image_url :: "string option"

datatype chat_outcome = Raises py_error | Content "string option"

type_synonym openai_client = "chat_request \<Rightarrow> chat_outcome"

text \<open>\<^verbatim>\<open>str(e)\<close>\<close>

fun str_of_error :: "py_error \<Rightarrow> string" where
  "str_of_error (Exception msg) = msg"

definition context_entry :: "string \<Rightarrow> string \<Rightarrow> string \<Rightarrow> string" where
  "context_entry title url body =
     ''Title: '' @ title @ [CHR 0x0A] @ ''URL: '' @ url @ [CHR 0x0A] @
     ''Content: '' @ take 500 body @ ''...''"

text \<open>The loop over the keyword hits (lines 148 to 154).\<close>

fun keyword_context :: "search_hit list \<Rightarrow> string list \<Rightarrow> link list \<Rightarrow> string list \<times> link list" where
  "keyword_context [] context_parts relevant_links = (context_parts, relevant_links)"
| "keyword_context (result # rs) context_parts relevant_links =
     (if 0 < hit_score result
      then keyword_context rs
             (context_parts @ [context_entry (hit_title result) (hit_url result) (hit_text result)])
             (relevant_links @ [hit_link result])
      else keyword_context rs context_parts relevant_links)"

text \<open>The retrieval stage of \<^verbatim>\<open>answer_question\<close> (lines 142 to 154).\<close>

definition retrieve_context :: "corpus \<Rightarrow> string \<Rightarrow> string list \<times> link list" where
  "retrieve_context db question = keyword_context (simple_search db question 5) [] []"

definition system_prompt :: string where
  "system_prompt = join [CHR 0x0A]
     [''You are a helpful Teaching Assistant for the Tools in Data Science course at IIT Madras. '',
      [],
      ''Your task is to answer student questions based on the provided course content and discourse discussions.'',
      [],
      ''Guidelines:'',
      ''1. Provide accurate, helpful answers based on the context provided'',
      ''2. If the question involves choosing between models (like GPT versions), refer to the specific requirements mentioned in the course materials'',
      ''3. Be concise but comprehensive'',
      ''4. If you cannot find relevant information in the context, say so clearly'',
      ''5. Focus on practical, actionable advice for students'',
      [],
      ''Respond with a clear, helpful answer that addresses the student's question directly.'']"

definition build_request :: "string \<Rightarrow> string list \<Rightarrow> string option \<Rightarrow> chat_request" where
  "build_request question context_parts image_base64 =
     (let context =
            (if context_parts \<noteq> []
             then join ([CHR 0x0A, CHR 0x0A] @ ''---'' @ [CHR 0x0A, CHR 0x0A]) context_parts
             else ''No highly relevant content found in the database.'');
          user_text =
            ''Student Question: '' @ question @ [CHR 0x0A, CHR 0x0A] @
            ''Relevant Course Content and Discussions:'' @ [CHR 0x0A] @ context @
            [CHR 0x0A, CHR 0x0A] @
            ''Please provide a helpful answer to the student's question based on the above context.''
      in case image_base64 of
           None \<Rightarrow> \<lparr>req_system = system_prompt, req_user_text = user_text, req_image_url = None\<rparr>
         | Some img \<Rightarrow>
             if img = []
             then \<lparr>req_system = system_prompt, req_user_text = user_text, req_image_url = None\<rparr>
             else \<lparr>req_system = system_prompt,
                   req_user_text = user_text @ [CHR 0x0A, CHR 0x0A] @
                     ''Note: The student has also provided an image/screenshot. '' @
                     ''Please analyze it in context of their question.'',
                   req_image_url = Some (''data:image/jpeg;base64,'' @ img)\<rparr>)"

text \<open>
  \<^verbatim>\<open>"quota" in str(e).lower() or "insufficient" in str(e).lower()\<close>: the failures the
  handler takes for quota or capacity exhaustion.
\<close>

definition quota_error :: "py_error \<Rightarrow> bool" where
  "quota_error e =
     (str_in ''quota'' (lower (str_of_error e)) \<or> str_in ''insufficient'' (lower (str_of_error e)))"

definition error_answer :: "py_error \<Rightarrow> answer_result" where
  "error_answer e =
     \<lparr>ar_answer = ''Sorry, I encountered an error while processing your question: '' @ str_of_error e,
      ar_links = []\<rparr>"

text \<open>\<^verbatim>\<open>content or "I couldn't generate a response."\<close>\<close>

definition answer_text :: "string option \<Rightarrow> string" where
  "answer_text content =
     (case content of
        None \<Rightarrow> ''I couldn't generate a response.''
      | Some a \<Rightarrow> if a = [] then ''I couldn't generate a response.'' else a)"

text \<open>
  The four \<^verbatim>\<open>return\<close> statements of \<^verbatim>\<open>answer_question\<close>: line 138 and line 231 return
  the fallback answer, line 222 the generated answer, line 232 the error answer.
  \<open>answer_question_traced\<close> pairs the result with the statement that returned it.
\<close>

datatype return_path = FallbackPath | GenerativePath | ErrorPath

definition generated_answer :: "link list \<Rightarrow> string \<Rightarrow> string option \<Rightarrow> answer_result" where
  "generated_answer relevant_links question content =
     (let answer = answer_text content;
          final_links = rank_and_filter_links relevant_links question answer
      in \<lparr>ar_answer = answer, ar_links = slice_to 3 final_links\<rparr>)"

definition answer_question_traced ::
  "corpus \<Rightarrow> openai_client option \<Rightarrow> string \<Rightarrow> string option \<Rightarrow> return_path \<times> answer_result" where
  "answer_question_traced db client question image_base64 =
     (case client of
        None \<Rightarrow> (FallbackPath, generate_fallback_answer db question image_base64)
      | Some create \<Rightarrow>
          (let (context_parts, relevant_links) = retrieve_context db question
           in (case create (build_request question context_parts image_base64) of
                 Content content \<Rightarrow>
                   (GenerativePath, generated_answer relevant_links question content)
               | Raises e \<Rightarrow>
                   (if quota_error e
                    then (FallbackPath, generate_fallback_answer db question image_base64)
                    else (ErrorPath, error_answer e)))))"

definition answer_question :: "corpus \<Rightarrow> openai_client option \<Rightarrow> string \<Rightarrow> string option \<Rightarrow> answer_result" where
  "answer_question db client question image_base64 =
     snd (answer_question_traced db client question image_base64)"

section \<open>Vector search (vector\_store.VectorStore.search)\<close>

text \<open>
  The payload snapshot of a document, and the store. The sentence-embedding model and
  the FAISS index are outside the repository: \<open>vs_index\<close> is \<^verbatim>\<open>None\<close> or holds what
  lines 102 to 107 compute from the query text and \<open>k\<close> (encode, normalise,
  \<^verbatim>\<open>index.search\<close>): an exception, or the pairs \<^verbatim>\<open>zip(scores[0], indices[0])\<close>, in which
  the index \<open>-1\<close> stands for no match. A similarity is modelled by the real number the
  float denotes.
\<close>

record vs_document =
  vd_id :: int
  vd_url :: string
  vd_title :: string
  vd_content :: string
  vd_content_type :: string
  vd_text :: string

type_synonym index_search = "string \<Rightarrow> int \<Rightarrow> py_error + (real \<times> int) list"

record vector_store =
  vs_index :: "index_search option"
  vs_documents :: "vs_document list"

text \<open>\<^verbatim>\<open>xs[i]\<close>: a negative index counts from the end; out of range raises.\<close>

definition py_index :: "'a list \<Rightarrow> int \<Rightarrow> py_error + 'a" where
  "py_index documents idx =
     (if 0 \<le> idx \<and> idx < int (length documents)
      then Inr (documents ! nat idx)
      else if idx < 0 \<and> - int (length documents) \<le> idx
      then Inr (documents ! nat (int (length documents) + idx))
      else Inl (Exception ''list index out of range''))"

fun collect_results ::
  "vs_document list \<Rightarrow> (real \<times> int) list \<Rightarrow> (vs_document \<times> real) list
     \<Rightarrow> py_error + (vs_document \<times> real) list" where
  "collect_results documents [] results = Inr results"
| "collect_results documents ((score, idx) # rest) results =
     (if idx \<noteq> - 1
      then (case py_index documents idx of
              Inl e \<Rightarrow> Inl e
            | Inr d \<Rightarrow> collect_results documents rest (results @ [(d, score)]))
      else collect_results documents rest results)"

definition vector_store_search ::
  "vector_store \<Rightarrow> string \<Rightarrow> int \<Rightarrow> py_error + (vs_document \<times> real) list" where
  "vector_store_search vs query top_k =
     (case vs_index vs of
        None \<Rightarrow> Inr []
      | Some index \<Rightarrow>
          if length (vs_documents vs) = 0 then Inr []
          else (case index query (min top_k (int (length (vs_documents vs)))) of
                  Inl e \<Rightarrow> Inl e
                | Inr pairs \<Rightarrow> collect_results (vs_documents vs) pairs []))"

section \<open>The relevance threshold of ai\_assistant.answer\_question\<close>

text \<open>
  The loop over the vector hits (lines 38 to 44). No float lies strictly between the
  float written \<^verbatim>\<open>0.3\<close> and the number 3/10, so \<^verbatim>\<open>score > 0.3\<close> on floats is
  \<open>3/10 < score\<close> on the numbers they denote.
\<close>

definition doc_link :: "vs_document \<Rightarrow> link" where
  "doc_link d = \<lparr>link_url = vd_url d, link_text = vd_title d\<rparr>"

fun vector_context ::
  "(vs_document \<times> real) list \<Rightarrow> string list \<Rightarrow> link list \<Rightarrow> string list \<times> link list" where
  "vector_context [] context_parts relevant_links = (context_parts, relevant_links)"
| "vector_context ((d, score) # rest) context_parts relevant_links =
     (if 3 / 10 < score
      then vector_context rest
             (context_parts @ [context_entry (vd_title d) (vd_url d) (vd_content d)])
             (relevant_links @ [doc_link d])
      else vector_context rest context_parts relevant_links)"

section \<open>The served pipeline (api.py)\<close>




section \<open>The specification's words\<close>

text \<open>
  Keyword score as the specification words it: the weights of the lexicon phrases
  found in both the lowercase question and the lowercase document text, plus, for
  each question word longer than 2 characters, the number of its occurrences in the
  document text. The question words are the distinct words of the lowercase question.
\<close>

definition phrase_lexicon :: "(string \<times> int) list" where
  "phrase_lexicon =
     [(''gpt-3.5-turbo'', 20), (''gpt-4o-mini'', 15), (''ga4'', 20), (''dashboard'', 15),
      (''bonus'', 15), (''docker'', 20), (''podman'', 20), (''sep 2025'', 20), (''exam'', 15)]"

definition spec_keyword_score :: "string \<Rightarrow> scraped_content \<Rightarrow> int" where
  "spec_keyword_score question c =
     (\<Sum>(p, w) \<leftarrow> phrase_lexicon.
        if str_in p (lower question) \<and> str_in p (doc_text c) then w else 0)
     + (\<Sum>word \<leftarrow> filter (\<lambda>word. 2 < length word) (question_words question).
          int (str_count (doc_text c) word))"

definition spec_keyword_candidates :: "string \<Rightarrow> scraped_content list \<Rightarrow> search_hit list" where
  "spec_keyword_candidates question contents =
     filter (\<lambda>h. hit_score h \<noteq> 0)
       (map (\<lambda>c. \<lparr>hit_content = c, hit_score = spec_keyword_score question c\<rparr>) contents)"

text \<open>
  Link score as the specification words it: one point for each question word longer
  than 3 characters that occurs in the lowercase title, plus two points when the URL
  occurs in the answer or the lowercase title occurs in the lowercase answer.
\<close>

definition spec_link_score :: "string \<Rightarrow> string \<Rightarrow> link \<Rightarrow> int" where
  "spec_link_score question answer l =
     int (length (filter (\<lambda>word. 3 < length word \<and> str_in word (lower (link_text l)))
                    (split (lower question))))
     + (if str_in (link_url l) answer \<or> str_in (lower (link_text l)) (lower answer)
        then 2 else 0)"


section \<open>Example data\<close>

definition ex_vdoc_a :: vs_document where
  "ex_vdoc_a = \<lparr>vd_id = 1, vd_url = ''https://tds.example/a'', vd_title = ''GA4 Dashboard'',
      vd_content = ''bonus marks'', vd_content_type = ''course'', vd_text = ''GA4 Dashboard'' @ [CHR 0x0A] @ ''bonus marks''\<rparr>"
definition ex_vdoc_b :: vs_document where
  "ex_vdoc_b = \<lparr>vd_id = 2, vd_url = ''https://tds.example/b'', vd_title = ''Docker Setup'',
      vd_content = ''use podman'', vd_content_type = ''discourse'', vd_text = ''Docker Setup'' @ [CHR 0x0A] @ ''use podman''\<rparr>"
definition ex_index :: index_search where
  "ex_index = (\<lambda>query k. Inr [(9 / 10, 1), (- 1, - 1)])"

definition ex_question :: string where
  "ex_question = ''How does the GA4 dashboard show bonus marks?''"
definition ex_link_a :: link where
  "ex_link_a = \<lparr>link_url = ''a'', link_text = ''GA4 Dashboard''\<rparr>"
definition ex_link_b :: link where
  "ex_link_b = \<lparr>link_url = ''b'', link_text = ''Docker Setup''\<rparr>"

definition ex_doc_a :: scraped_content where
  "ex_doc_a = \<lparr>sc_id = 1, sc_url = ''https://tds.example/a'', sc_title = ''GA4 Dashboard'',
      sc_content = ''bonus marks'', sc_content_type = ''course''\<rparr>"
definition ex_doc_b :: scraped_content where
  "ex_doc_b = \<lparr>sc_id = 2, sc_url = ''https://tds.example/b'', sc_title = ''Docker Setup'',
      sc_content = ''use podman'', sc_content_type = ''discourse''\<rparr>"
definition ex_doc_docker :: scraped_content where
  "ex_doc_docker = \<lparr>sc_id = 3, sc_url = ''https://tds.example/docker'',
      sc_title = ''Docker Guidelines'', sc_content = replicate 250 (CHR ''x''),
      sc_content_type = ''course''\<rparr>"
definition ex_doc_podman :: scraped_content where
  "ex_doc_podman = \<lparr>sc_id = 4, sc_url = ''https://tds.example/podman'',
      sc_title = ''Podman Notes'', sc_content = replicate 50 (CHR ''y''),
      sc_content_type = ''discourse''\<rparr>"

section \<open>Properties\<close>

subsection \<open>Strings and loops\<close>

lemma starts_with_iff: "starts_with s p \<longleftrightarrow> (\<exists>r. s = p @ r)"
  by (induction s p rule: starts_with.induct) auto

lemma str_in_iff: "str_in sub s \<longleftrightarrow> (\<exists>pre post. s = pre @ sub @ post)"
proof (induction s)
  case Nil
  then show ?case by auto
next
  case (Cons c cs)
  show ?case
  proof
    assume "str_in sub (c # cs)"
    then consider "starts_with (c # cs) sub" | "str_in sub cs" by auto
    then show "\<exists>pre post. c # cs = pre @ sub @ post"
    proof cases
      case 1
      then obtain r where "c # cs = sub @ r" by (auto simp: starts_with_iff)
      then have "c # cs = [] @ sub @ r" by simp
      then show ?thesis by blast
    next
      case 2
      then obtain pre post where "cs = pre @ sub @ post" using Cons.IH by auto
      then have "c # cs = (c # pre) @ sub @ post" by simp
      then show ?thesis by blast
    qed
  next
    assume "\<exists>pre post. c # cs = pre @ sub @ post"
    then obtain pre post where eq: "c # cs = pre @ sub @ post" by blast
    show "str_in sub (c # cs)"
    proof (cases pre)
      case Nil
      with eq have "starts_with (c # cs) sub" by (auto simp: starts_with_iff)
      then show ?thesis by simp
    next
      case (Cons a pre')
      with eq have "cs = pre' @ sub @ post" by simp
      then have "str_in sub cs" using Cons.IH by blast
      then show ?thesis by simp
    qed
  qed
qed

lemma keyword_context_eq:
  "keyword_context hits cp rl =
     (cp @ map (\<lambda>h. context_entry (hit_title h) (hit_url h) (hit_text h))
             (filter (\<lambda>h. 0 < hit_score h) hits),
      rl @ map hit_link (filter (\<lambda>h. 0 < hit_score h) hits))"
  by (induction hits arbitrary: cp rl) auto

lemma vector_context_eq:
  "vector_context hits cp rl =
     (cp @ map (\<lambda>(d, s). context_entry (vd_title d) (vd_url d) (vd_content d))
             (filter (\<lambda>(d, s). 3 / 10 < s) hits),
      rl @ map (\<lambda>(d, s). doc_link d) (filter (\<lambda>(d, s). 3 / 10 < s) hits))"
  by (induction hits arbitrary: cp rl) auto

lemma str_in_trans: "str_in a b \<Longrightarrow> str_in b c \<Longrightarrow> str_in a c"
proof -
  assume "str_in a b" "str_in b c"
  then obtain p1 s1 p2 s2 where "b = p1 @ a @ s1" "c = p2 @ b @ s2"
    by (auto simp: str_in_iff)
  then have "c = (p2 @ p1) @ a @ (s1 @ s2)" by simp
  then show ?thesis unfolding str_in_iff by blast
qed

lemma collect_results_eq:
  "\<forall>(s, i) \<in> set pairs. - 1 \<le> i \<and> i < int (length documents) \<Longrightarrow>
   collect_results documents pairs results =
     Inr (results @ map (\<lambda>(s, i). (documents ! nat i, s)) (filter (\<lambda>(s, i). i \<noteq> - 1) pairs))"
proof (induction pairs arbitrary: results)
  case Nil
  then show ?case by simp
next
  case (Cons p pairs)
  obtain s i where p: "p = (s, i)" by (cases p)
  from Cons.prems p have rng: "- 1 \<le> i" "i < int (length documents)" by auto
  from Cons.prems have rest: "\<forall>(s, i) \<in> set pairs. - 1 \<le> i \<and> i < int (length documents)" by auto
  show ?case
  proof (cases "i = - 1")
    case True
    then show ?thesis using p Cons.IH[OF rest] by simp
  next
    case False
    with rng have "0 \<le> i" by arith
    then have "py_index documents i = Inr (documents ! nat i)"
      using rng by (simp add: py_index_def)
    then show ?thesis using p False Cons.IH[OF rest] by simp
  qed
qed

lemma title_relevance_eq:
  "title_relevance ws t score =
     score + int (length (filter (\<lambda>word. 3 < length word \<and> str_in word t) ws))"
  by (induction ws arbitrary: score) auto

lemma link_score_eq: "link_score question answer l = spec_link_score question answer l"
  by (simp add: link_score_def spec_link_score_def title_relevance_eq Let_def)

lemma insort_key_map:
  "insort_key f (h x) (map h ys) = map h (insort_key (\<lambda>y. f (h y)) x ys)"
  by (induction ys) auto

lemma sort_key_map: "sort_key f (map h xs) = map h (sort_key (\<lambda>y. f (h y)) xs)"
  by (induction xs) (auto simp: insort_key_map)

lemma score_links_eq:
  "score_links question answer ls acc = acc @ map (\<lambda>l. (l, link_score question answer l)) ls"
  by (induction ls arbitrary: acc) auto

lemma rank_and_filter_links_eq:
  "rank_and_filter_links ls question answer =
     filter (\<lambda>l. 0 < link_score question answer l)
       (sort_key (\<lambda>l. - link_score question answer l) ls)"
  by (simp add: rank_and_filter_links_def score_links_eq sort_key_map filter_map comp_def Let_def)

lemma ex_words:
  "split (lower ex_question) =
     [''how'', ''does'', ''the'', ''ga4'', ''dashboard'', ''show'', ''bonus'', ''marks?'']"
  by (simp add: ex_question_def lower_def lower_char_def split_def is_space_def)

lemma ex_score_a:
  assumes "str_in ''dashboard'' answer"
  shows "spec_link_score ex_question answer ex_link_a = 3"
proof -
  have "str_in ''a'' ''dashboard''" by simp
  then have "str_in ''a'' answer" using assms by (rule str_in_trans)
  moreover have "lower ''GA4 Dashboard'' = ''ga4 dashboard''"
    by (simp add: lower_def lower_char_def)
  ultimately show ?thesis
    by (simp add: spec_link_score_def ex_words ex_link_a_def)
qed

lemma ex_score_b:
  assumes "str_in ''bonus'' answer"
  shows "spec_link_score ex_question answer ex_link_b = 2"
proof -
  have "str_in ''b'' ''bonus''" by simp
  then have "str_in ''b'' answer" using assms by (rule str_in_trans)
  moreover have "lower ''Docker Setup'' = ''docker setup''"
    by (simp add: lower_def lower_char_def)
  ultimately show ?thesis
    by (simp add: spec_link_score_def ex_words ex_link_b_def)
qed

subsection \<open>Keyword scoring\<close>

text \<open>A word that the question repeats is visited once by the scoring loop.\<close>

lemma question_words_distinct:
  "distinct (question_words question)
   \<and> set (question_words question) = set (split (lower question))"
  by (simp add: question_words_def)

lemma word_matching_eq:
  "word_matching ws text score =
     score + (\<Sum>word \<leftarrow> filter (\<lambda>word. 2 < length word) ws. int (str_count text word))"
  by (induction ws arbitrary: score) auto

lemma phrase_bonus_eq:
  "phrase_bonus p w question text score =
     score + (if str_in p (lower question) \<and> str_in p text then w else 0)"
  by (simp add: phrase_bonus_def)

lemma phrase_matching_eq:
  "phrase_matching question text =
     (\<Sum>(p, w) \<leftarrow> phrase_lexicon. if str_in p (lower question) \<and> str_in p text then w else 0)"
  unfolding phrase_matching_def phrase_lexicon_def Let_def phrase_bonus_eq
  by (simp only: list.map sum_list.Cons sum_list.Nil prod.case add_0 add_0_right add.assoc)

lemma doc_score_eq: "doc_score question c = spec_keyword_score question c"
  by (simp add: doc_score_def spec_keyword_score_def word_matching_eq phrase_matching_eq Let_def)

lemma phrase_sum_nonneg:
  "0 \<le> (\<Sum>(p, w) \<leftarrow> phrase_lexicon. if str_in p a \<and> str_in p b then w else (0::int))"
  by (rule sum_list_nonneg) (auto simp: phrase_lexicon_def)

lemma spec_keyword_score_nonneg: "0 \<le> spec_keyword_score question c"
proof -
  have "0 \<le> (\<Sum>word \<leftarrow> filter (\<lambda>word. 2 < length word) (question_words question).
                 int (str_count (doc_text c) word))"
    by (rule sum_list_nonneg) auto
  then show ?thesis
    using phrase_sum_nonneg [of "lower question" "doc_text c"]
    unfolding spec_keyword_score_def by linarith
qed

lemma score_contents_eq:
  "score_contents question cs acc =
     acc @ filter (\<lambda>h. 0 < hit_score h)
             (map (\<lambda>c. \<lparr>hit_content = c, hit_score = doc_score question c\<rparr>) cs)"
  by (induction cs arbitrary: acc) (auto simp: Let_def)

lemma score_contents_candidates:
  "score_contents question cs [] = spec_keyword_candidates question cs"
proof -
  have "(0 < spec_keyword_score question c) = (spec_keyword_score question c \<noteq> 0)" for c
    using spec_keyword_score_nonneg [of question c] by arith
  then show ?thesis
    by (simp add: score_contents_eq spec_keyword_candidates_def doc_score_eq filter_map comp_def)
qed

lemma simple_search_eq:
  "simple_search (Inr contents) question top_k =
     slice_to top_k (sort_by_score_desc (spec_keyword_candidates question contents))"
  by (cases contents)
     (simp_all add: simple_search_def simple_search_body_def score_contents_candidates
        spec_keyword_candidates_def sort_by_score_desc_def slice_to_def)

lemma candidates_positive:
  "h \<in> set (spec_keyword_candidates question contents) \<Longrightarrow> 0 < hit_score h"
  using spec_keyword_score_nonneg [of question]
  by (auto simp: spec_keyword_candidates_def order.strict_iff_order)

lemma simple_search_positive:
  assumes "h \<in> set (simple_search db question top_k)"
  shows "0 < hit_score h"
proof (cases db)
  case (Inl e)
  with assms show ?thesis by (simp add: simple_search_def simple_search_body_def)
next
  case (Inr contents)
  with assms have "h \<in> set (slice_to top_k (sort_by_score_desc (spec_keyword_candidates question contents)))"
    by (simp add: simple_search_eq)
  then have "h \<in> set (sort_by_score_desc (spec_keyword_candidates question contents))"
    by (auto simp: slice_to_def dest: in_set_takeD split: if_splits)
  then show ?thesis by (simp add: sort_by_score_desc_def candidates_positive)
qed

subsection \<open>The fallback answer and the links of a result\<close>

lemma fallback_loop_eq:
  "fallback_loop i hs ap rl =
     (ap @ concat (map (\<lambda>(j, h). [excerpt_label j h, ''   '' @ content_snippet h, []])
                     (zip [i..<i + length hs] hs)),
      rl @ map hit_link hs)"
proof (induction hs arbitrary: i ap rl)
  case Nil
  then show ?case by simp
next
  case (Cons h hs)
  have "[i..<i + Suc (length hs)] = i # [Suc i..<i + Suc (length hs)]"
    by (rule upt_conv_Cons) simp
  then have "[i..<i + length (h # hs)] = i # [Suc i..<Suc i + length hs]"
    by simp
  then show ?case using Cons.IH [of "Suc i"] by simp
qed

lemma generate_fallback_answer_eq:
  "generate_fallback_answer db question img =
     (let hits = take 3 (simple_search db question 3) in
        if hits = [] then \<lparr>ar_answer = nothing_found_message, ar_links = []\<rparr>
        else \<lparr>ar_answer = join [CHR 0x0A]
                 (fallback_header
                    # concat (map (\<lambda>(i, h). [excerpt_label i h, ''   '' @ content_snippet h, []])
                                (zip [1..<Suc (length hits)] hits))
                    @ (if truthy img then [image_note] else [])),
               ar_links = map hit_link hits\<rparr>)"
  by (simp add: generate_fallback_answer_def fallback_loop_eq slice_to_def Let_def)

lemma str_in_lower:
  assumes "str_in a b"
  shows "str_in (lower a) (lower b)"
proof -
  from assms obtain pre post where "b = pre @ a @ post"
    unfolding str_in_iff by blast
  then have "lower b = lower pre @ lower a @ lower post"
    by (simp add: lower_def)
  then show ?thesis unfolding str_in_iff by blast
qed

lemma str_in_join: "p \<in> set ps \<Longrightarrow> str_in p (join sep ps)"
proof (induction sep ps rule: join.induct)
  case (1 sep)
  then show ?case by simp
next
  case (2 sep q)
  then have "q = [] @ p @ []" by simp
  then show ?case unfolding str_in_iff join.simps by blast
next
  case (3 sep a b ps)
  show ?case
  proof (cases "p = a")
    case True
    have "join sep (a # b # ps) = [] @ p @ (sep @ join sep (b # ps))" using True by simp
    then show ?thesis unfolding str_in_iff by blast
  next
    case False
    with 3 have "str_in p (join sep (b # ps))" by simp
    then obtain pre post where "join sep (b # ps) = pre @ p @ post"
      unfolding str_in_iff by blast
    then have "join sep (a # b # ps) = (a @ sep @ pre) @ p @ post" by simp
    then show ?thesis unfolding str_in_iff by blast
  qed
qed

lemma title_in_excerpt_label: "str_in (hit_title h) (excerpt_label i h)"
proof -
  have "excerpt_label i h =
          (str_of_nat i @ ''. From '' @ [CHR 0x27]) @ hit_title h @ ([CHR 0x27] @ '':'')"
    by (simp add: excerpt_label_def)
  then show ?thesis unfolding str_in_iff by blast
qed

lemma link_score_title_bonus:
  assumes "str_in (lower (link_text l)) (lower answer)"
  shows "0 < link_score question answer l"
proof -
  have "0 \<le> title_relevance (split (lower question)) (lower (link_text l)) 0"
    by (simp add: title_relevance_eq)
  then show ?thesis using assms by (simp add: link_score_def Let_def)
qed

lemma excerpt_label_in_parts:
  assumes "h \<in> set hits"
  shows "\<exists>i. excerpt_label i h
           \<in> set (concat (map (\<lambda>(i, h). [excerpt_label i h, ''   '' @ content_snippet h, []])
                            (zip [n..<n + length hits] hits)))"
proof -
  from assms obtain k where k: "k < length hits" "hits ! k = h"
    by (auto simp: in_set_conv_nth)
  then have "(n + k, h) \<in> set (zip [n..<n + length hits] hits)"
    by (auto simp: in_set_zip intro!: exI [of _ k])
  then show ?thesis by force
qed

lemma fallback_links_relevant:
  assumes "l \<in> set (ar_links (generate_fallback_answer db question img))"
  shows "0 < link_score question (ar_answer (generate_fallback_answer db question img)) l"
proof -
  let ?hits = "take 3 (simple_search db question 3)"
  let ?parts = "fallback_header
      # concat (map (\<lambda>(i, h). [excerpt_label i h, ''   '' @ content_snippet h, []])
                  (zip [1..<Suc (length ?hits)] ?hits))
      @ (if truthy img then [image_note] else [])"
  from assms have ne: "?hits \<noteq> []"
    by (auto simp: generate_fallback_answer_eq Let_def split: if_splits)
  then have ans: "ar_answer (generate_fallback_answer db question img) = join [CHR 0x0A] ?parts"
    and lks: "ar_links (generate_fallback_answer db question img) = map hit_link ?hits"
    by (simp_all add: generate_fallback_answer_eq Let_def)
  from assms lks obtain h where h: "h \<in> set ?hits" "l = hit_link h" by auto
  from excerpt_label_in_parts [OF h(1), of 1] obtain i where "excerpt_label i h \<in> set ?parts"
    by auto
  then have "str_in (excerpt_label i h) (join [CHR 0x0A] ?parts)" by (rule str_in_join)
  with title_in_excerpt_label have "str_in (hit_title h) (join [CHR 0x0A] ?parts)"
    by (rule str_in_trans)
  then have "str_in (lower (link_text l)) (lower (join [CHR 0x0A] ?parts))"
    using h(2) by (simp add: str_in_lower hit_link_def)
  then show ?thesis unfolding ans by (rule link_score_title_bonus)
qed

lemma generated_links_relevant:
  assumes "l \<in> set (ar_links (generated_answer relevant_links question content))"
  shows "0 < link_score question (ar_answer (generated_answer relevant_links question content)) l"
  using assms
  by (auto simp: generated_answer_def Let_def slice_to_def rank_and_filter_links_eq
           dest!: in_set_takeD)

lemma at_most_three_fallback: "length (ar_links (generate_fallback_answer db question img)) \<le> 3"
  by (simp add: generate_fallback_answer_eq Let_def)

lemma at_most_three_generated:
  "length (ar_links (generated_answer relevant_links question content)) \<le> 3"
  by (simp add: generated_answer_def Let_def slice_to_def)

subsection \<open>Example evaluations\<close>

lemma ex_text_a: "doc_text ex_doc_a = ''ga4 dashboard bonus marks''"
  by (simp add: doc_text_def ex_doc_a_def lower_def lower_char_def)

lemma ex_text_b: "doc_text ex_doc_b = ''docker setup use podman''"
  by (simp add: doc_text_def ex_doc_b_def lower_def lower_char_def)

lemma ex_lower_q1: "lower ''Docker or podman?'' = ''docker or podman?''"
  by (simp add: lower_def lower_char_def)

lemma ex_words_q1: "question_words ''Docker or podman?'' = [''docker'', ''or'', ''podman?'']"
  by (simp add: question_words_def ex_lower_q1 split_def is_space_def)

lemma ex_score_q1_a: "spec_keyword_score ''Docker or podman?'' ex_doc_a = 0"
  by (simp add: spec_keyword_score_def phrase_lexicon_def ex_lower_q1 ex_words_q1 ex_text_a
        str_count_def)

lemma ex_score_q1_b: "spec_keyword_score ''Docker or podman?'' ex_doc_b = 41"
  by (simp add: spec_keyword_score_def phrase_lexicon_def ex_lower_q1 ex_words_q1 ex_text_b
        str_count_def)

lemma ex_search_q1:
  "simple_search (Inr [ex_doc_a, ex_doc_b]) ''Docker or podman?'' k =
     slice_to k [\<lparr>hit_content = ex_doc_b, hit_score = 41\<rparr>]"
  by (simp add: simple_search_eq spec_keyword_candidates_def sort_by_score_desc_def
        ex_score_q1_a ex_score_q1_b)

lemma ex_lower_q2: "lower ''Which container engine?'' = ''which container engine?''"
  by (simp add: lower_def lower_char_def)

lemma ex_words_q2:
  "question_words ''Which container engine?'' = [''which'', ''container'', ''engine?'']"
  by (simp add: question_words_def ex_lower_q2 split_def is_space_def)

lemma ex_score_q2_a: "spec_keyword_score ''Which container engine?'' ex_doc_a = 0"
  by (simp add: spec_keyword_score_def phrase_lexicon_def ex_lower_q2 ex_words_q2 ex_text_a
        str_count_def)

lemma ex_score_q2_b: "spec_keyword_score ''Which container engine?'' ex_doc_b = 0"
  by (simp add: spec_keyword_score_def phrase_lexicon_def ex_lower_q2 ex_words_q2 ex_text_b
        str_count_def)

lemma ex_search_q2:
  "simple_search (Inr [ex_doc_a, ex_doc_b]) ''Which container engine?'' k = []"
  by (simp add: simple_search_eq spec_keyword_candidates_def sort_by_score_desc_def
        ex_score_q2_a ex_score_q2_b slice_to_def)

subsection \<open>Claims\<close>

text \<open>
  C1. Every result of the answering pipeline holds at most 3 links, and every link it
  holds is relevant: its Link Ranker score against the question and the returned
  answer is positive. On the generative path the ranker has dropped the other links;
  on the fallback path the answer quotes the title of every link it returns, and each
  link comes from a keyword hit of positive score; the error answer has no links.
\<close>

theorem links_bounded_and_relevant:
  "length (ar_links (answer_question db client question img)) \<le> 3
   \<and> (\<forall>l \<in> set (ar_links (answer_question db client question img)).
         0 < link_score question (ar_answer (answer_question db client question img)) l)
   \<and> (fst (answer_question_traced db client question img) = FallbackPath \<longrightarrow>
        (\<forall>l \<in> set (ar_links (answer_question db client question img)).
           \<exists>h \<in> set (simple_search db question 3). l = hit_link h \<and> 0 < hit_score h))"
proof -
  let ?r = "answer_question db client question img"
  have paths:
    "(fst (answer_question_traced db client question img) = FallbackPath
        \<and> ?r = generate_fallback_answer db question img)
     \<or> (\<exists>relevant_links content.
           fst (answer_question_traced db client question img) = GenerativePath
           \<and> ?r = generated_answer relevant_links question content)
     \<or> (\<exists>e. fst (answer_question_traced db client question img) = ErrorPath
           \<and> ?r = error_answer e)"
  proof (cases client)
    case None
    then show ?thesis by (simp add: answer_question_def answer_question_traced_def)
  next
    case (Some create)
    obtain cp rl where ctx: "retrieve_context db question = (cp, rl)"
      by (cases "retrieve_context db question")
    show ?thesis
    proof (cases "create (build_request question cp img)")
      case (Raises e)
      then show ?thesis using Some ctx
        by (cases "quota_error e") (auto simp: answer_question_def answer_question_traced_def)
    next
      case (Content content)
      then show ?thesis using Some ctx
        by (auto simp: answer_question_def answer_question_traced_def)
    qed
  qed
  then consider
      (fallback) "fst (answer_question_traced db client question img) = FallbackPath"
                 "?r = generate_fallback_answer db question img"
    | (generative) relevant_links content where
                 "fst (answer_question_traced db client question img) = GenerativePath"
                 "?r = generated_answer relevant_links question content"
    | (error) e where
                 "fst (answer_question_traced db client question img) = ErrorPath"
                 "?r = error_answer e"
    by blast
  then show ?thesis
  proof cases
    case fallback
    have "\<exists>h \<in> set (simple_search db question 3). l = hit_link h \<and> 0 < hit_score h"
      if "l \<in> set (ar_links (generate_fallback_answer db question img))" for l
    proof -
      from that obtain h where "h \<in> set (take 3 (simple_search db question 3))" "l = hit_link h"
        by (auto simp: generate_fallback_answer_eq Let_def split: if_splits)
      then show ?thesis using simple_search_positive by (auto dest: in_set_takeD)
    qed
    then show ?thesis
      using fallback at_most_three_fallback fallback_links_relevant by simp
  next
    case generative
    then show ?thesis
      using at_most_three_generated generated_links_relevant by simp
  next
    case error
    then show ?thesis by (simp add: error_answer_def)
  qed
qed

theorem links_bounded_and_relevant_witness:
  "\<lparr>link_url = ''https://tds.example/b'', link_text = ''Docker Setup''\<rparr>
     \<in> set (ar_links (answer_question (Inr [ex_doc_a, ex_doc_b]) None ''Docker or podman?'' None))
   \<and> 0 < link_score ''Docker or podman?''
           (ar_answer (answer_question (Inr [ex_doc_a, ex_doc_b]) None ''Docker or podman?'' None))
           \<lparr>link_url = ''https://tds.example/b'', link_text = ''Docker Setup''\<rparr>
   \<and> length (ar_links (answer_question (Inr [ex_doc_a, ex_doc_b]) None ''Docker or podman?'' None))
       \<le> 3"
proof -
  have "ar_links (answer_question (Inr [ex_doc_a, ex_doc_b]) None ''Docker or podman?'' None)
          = [hit_link \<lparr>hit_content = ex_doc_b, hit_score = 41\<rparr>]"
    by (simp add: answer_question_def answer_question_traced_def generate_fallback_answer_eq
          ex_search_q1 slice_to_def)
  then have mem: "\<lparr>link_url = ''https://tds.example/b'', link_text = ''Docker Setup''\<rparr>
     \<in> set (ar_links (answer_question (Inr [ex_doc_a, ex_doc_b]) None ''Docker or podman?'' None))"
    by (simp add: hit_link_def hit_url_def hit_title_def ex_doc_b_def)
  show ?thesis
    using mem links_bounded_and_relevant
            [of "Inr [ex_doc_a, ex_doc_b]" None "''Docker or podman?''" None]
    by blast
qed

text \<open>
  C2. The fallback answer is returned exactly when no generation client is configured
  or the generative call raises an error whose message names a quota or capacity
  failure; every other failure of the call returns the error answer: a well-formed
  result whose text describes the error and whose link list is empty.
\<close>

theorem fallback_exactly_when:
  "(fst (answer_question_traced db client question img) = FallbackPath \<longleftrightarrow>
      (client = None
       \<or> (\<exists>create e. client = Some create
             \<and> create (build_request question (fst (retrieve_context db question)) img) = Raises e
             \<and> quota_error e)))
   \<and> (fst (answer_question_traced db client question img) = FallbackPath \<longrightarrow>
        answer_question db client question img = generate_fallback_answer db question img)
   \<and> (\<forall>create e. client = Some create
          \<and> create (build_request question (fst (retrieve_context db question)) img) = Raises e
          \<and> \<not> quota_error e \<longrightarrow>
        fst (answer_question_traced db client question img) = ErrorPath
        \<and> answer_question db client question img =
            \<lparr>ar_answer = ''Sorry, I encountered an error while processing your question: ''
                           @ str_of_error e,
             ar_links = []\<rparr>)"
  by (auto simp: answer_question_traced_def answer_question_def error_answer_def
           split: option.splits prod.splits chat_outcome.splits)

theorem fallback_exactly_when_witness:
  "answer_question (Inr []) None ''What is GA4?'' None
     = generate_fallback_answer (Inr []) ''What is GA4?'' None
   \<and> answer_question (Inr []) (Some (\<lambda>r. Raises (Exception ''Error 429: insufficient_quota'')))
       ''What is GA4?'' None
     = generate_fallback_answer (Inr []) ''What is GA4?'' None
   \<and> answer_question (Inr []) (Some (\<lambda>r. Raises (Exception ''Connection reset'')))
       ''What is GA4?'' None
     = \<lparr>ar_answer = ''Sorry, I encountered an error while processing your question: Connection reset'',
        ar_links = []\<rparr>"
  using fallback_exactly_when [of "Inr []" None "''What is GA4?''" None]
        fallback_exactly_when [of "Inr []" "Some (\<lambda>r. Raises (Exception ''Error 429: insufficient_quota''))"
          "''What is GA4?''" None]
        fallback_exactly_when [of "Inr []" "Some (\<lambda>r. Raises (Exception ''Connection reset''))"
          "''What is GA4?''" None]
  by (simp add: quota_error_def lower_def lower_char_def)

text \<open>
  C3. The keyword score of a document is the sum of the weights (each between 15 and
  20) of the lexicon phrases found in both the lowercase question and the lowercase
  document text, plus, for every question word longer than 2 characters, the number
  of its occurrences in the document text. The question words are the distinct
  whitespace-separated words of the lowercase question, and occurrences are counted
  without overlap. Documents of score 0 are left out; the rest are in descending order
  of score, documents of equal score in corpus order, and the first \<open>top_k\<close> of them are
  returned.
\<close>

theorem keyword_search_scoring_and_ranking:
  "doc_score question c = spec_keyword_score question c
   \<and> list_all (\<lambda>(p, w). 15 \<le> w \<and> w \<le> 20) phrase_lexicon
   \<and> (0 \<le> top_k \<longrightarrow>
        (\<exists>ranked.
           simple_search (Inr contents) question top_k = take (nat top_k) ranked
           \<and> sorted (map (\<lambda>h. - hit_score h) ranked)
           \<and> (\<forall>k. filter (\<lambda>h. hit_score h = k) ranked
                    = filter (\<lambda>h. hit_score h = k) (spec_keyword_candidates question contents))))"
proof -
  let ?cands = "spec_keyword_candidates question contents"
  let ?ranked = "sort_by_score_desc ?cands"
  have a: "sorted (map (\<lambda>h. - hit_score h) ?ranked)"
    unfolding sort_by_score_desc_def by (rule sorted_sort_key)
  have b: "filter (\<lambda>h. hit_score h = k) ?ranked = filter (\<lambda>h. hit_score h = k) ?cands" for k
    using sort_key_stable [of "\<lambda>h. - hit_score h" "- k" ?cands]
    by (simp add: sort_by_score_desc_def)
  have c: "simple_search (Inr contents) question top_k = take (nat top_k) ?ranked" if "0 \<le> top_k"
    using that by (simp add: simple_search_eq slice_to_def)
  have d: "list_all (\<lambda>(p, w). 15 \<le> w \<and> w \<le> 20) phrase_lexicon"
    by (simp add: phrase_lexicon_def)
  show ?thesis using a b c d doc_score_eq by blast
qed

theorem keyword_search_scoring_and_ranking_witness:
  "doc_score ''Docker or podman?'' ex_doc_b = 41
   \<and> list_all (\<lambda>(p, w). 15 \<le> w \<and> w \<le> 20) phrase_lexicon
   \<and> (\<exists>ranked.
         simple_search (Inr [ex_doc_a, ex_doc_b]) ''Docker or podman?'' 2 = take (nat 2) ranked
         \<and> sorted (map (\<lambda>h. - hit_score h) ranked)
         \<and> (\<forall>k. filter (\<lambda>h. hit_score h = k) ranked
                  = filter (\<lambda>h. hit_score h = k)
                      (spec_keyword_candidates ''Docker or podman?'' [ex_doc_a, ex_doc_b])))"
  using keyword_search_scoring_and_ranking
          [of "''Docker or podman?''" ex_doc_b 2 "[ex_doc_a, ex_doc_b]"]
  by (simp add: ex_score_q1_b)



text \<open>
  C5. A vector hit enters the context bundle if and only if its similarity is
  strictly greater than 0.3: a hit at exactly 0.3 is left out, a hit at 0.31 is taken.
  A keyword hit enters the bundle if and only if its score is strictly greater than 0.
\<close>

theorem relevance_threshold:
  "vector_context hits [] [] =
     (map (\<lambda>(d, s). context_entry (vd_title d) (vd_url d) (vd_content d))
        (filter (\<lambda>(d, s). 3 / 10 < s) hits),
      map (\<lambda>(d, s). doc_link d) (filter (\<lambda>(d, s). 3 / 10 < s) hits))
   \<and> vector_context [(d, 3 / 10)] [] [] = ([], [])
   \<and> vector_context [(d, 31 / 100)] [] [] =
       ([context_entry (vd_title d) (vd_url d) (vd_content d)], [doc_link d])
   \<and> keyword_context khits [] [] =
       (map (\<lambda>h. context_entry (hit_title h) (hit_url h) (hit_text h))
          (filter (\<lambda>h. 0 < hit_score h) khits),
        map hit_link (filter (\<lambda>h. 0 < hit_score h) khits))"
  by (simp add: vector_context_eq keyword_context_eq)

text \<open>
  C6. The Link Ranker gives a link one point for each question word longer than 3
  characters that occurs in the lowercase title, plus two points when the URL or the
  title occurs in the answer; the result is in descending order of score, links of
  equal score keep their input order, and no link of score 0 or less is returned. For
  the example links, question and any answer that contains the words dashboard and
  bonus, link a scores 3 and link b scores 2 (the URL b occurs inside those words),
  so a is ranked above b and b, whose score is not 0, is kept.
\<close>

theorem link_ranker_scores_and_order:
  "link_score question answer l = spec_link_score question answer l
   \<and> sorted (map (\<lambda>l. - spec_link_score question answer l)
               (rank_and_filter_links ls question answer))
   \<and> (\<forall>k. filter (\<lambda>l. spec_link_score question answer l = k)
              (rank_and_filter_links ls question answer)
            = (if 0 < k then filter (\<lambda>l. spec_link_score question answer l = k) ls else []))
   \<and> (str_in ''dashboard'' answer \<and> str_in ''bonus'' answer \<longrightarrow>
        spec_link_score ex_question answer ex_link_a = 3
        \<and> spec_link_score ex_question answer ex_link_b = 2
        \<and> rank_and_filter_links [ex_link_a, ex_link_b] ex_question answer = [ex_link_a, ex_link_b])"
proof -
  let ?sc = "spec_link_score question answer"
  have r: "rank_and_filter_links ls question answer =
             filter (\<lambda>l. 0 < ?sc l) (sort_key (\<lambda>l. - ?sc l) ls)"
    by (simp add: rank_and_filter_links_eq link_score_eq)
  have s: "sorted (map (\<lambda>l. - ?sc l) (rank_and_filter_links ls question answer))"
    unfolding r by (rule sorted_filter) (rule sorted_sort_key)
  have t: "filter (\<lambda>l. ?sc l = k) (rank_and_filter_links ls question answer)
             = (if 0 < k then filter (\<lambda>l. ?sc l = k) ls else [])" for k
  proof -
    have "filter (\<lambda>l. ?sc l = k) (rank_and_filter_links ls question answer)
            = filter (\<lambda>l. 0 < ?sc l) (filter (\<lambda>l. - ?sc l = - k) (sort_key (\<lambda>l. - ?sc l) ls))"
      unfolding r by (simp add: conj_commute)
    also have "\<dots> = filter (\<lambda>l. 0 < ?sc l) (filter (\<lambda>l. - ?sc l = - k) ls)"
      by (simp only: sort_key_stable)
    also have "\<dots> = (if 0 < k then filter (\<lambda>l. ?sc l = k) ls else [])"
      by (auto intro: filter_cong)
    finally show ?thesis .
  qed
  have e: "spec_link_score ex_question answer ex_link_a = 3
           \<and> spec_link_score ex_question answer ex_link_b = 2
           \<and> rank_and_filter_links [ex_link_a, ex_link_b] ex_question answer = [ex_link_a, ex_link_b]"
    if "str_in ''dashboard'' answer" "str_in ''bonus'' answer"
    using ex_score_a [OF that(1)] ex_score_b [OF that(2)]
    by (simp add: rank_and_filter_links_eq link_score_eq)
  show ?thesis using s t e by (simp add: link_score_eq)
qed

theorem link_ranker_scores_and_order_witness:
  "spec_link_score ex_question ''The dashboard lists your bonus marks.'' ex_link_a = 3
   \<and> spec_link_score ex_question ''The dashboard lists your bonus marks.'' ex_link_b = 2
   \<and> rank_and_filter_links [ex_link_a, ex_link_b] ex_question
        ''The dashboard lists your bonus marks.'' = [ex_link_a, ex_link_b]"
  using link_ranker_scores_and_order [where answer = "''The dashboard lists your bonus marks.''"]
  by simp

text \<open>
  C7, as stated, fails: with an image supplied and no hits, the fallback path returns
  the fixed message alone, without the note on image analysis.
\<close>

theorem fallback_image_note_counterexample:
  "truthy (Some ''aW1hZ2U='')
   \<and> fst (answer_question_traced (Inr [ex_doc_a, ex_doc_b]) None ''Which container engine?''
            (Some ''aW1hZ2U='')) = FallbackPath
   \<and> ar_answer (answer_question (Inr [ex_doc_a, ex_doc_b]) None ''Which container engine?''
                  (Some ''aW1hZ2U='')) = nothing_found_message
   \<and> \<not> str_in image_note
          (ar_answer (answer_question (Inr [ex_doc_a, ex_doc_b]) None ''Which container engine?''
                        (Some ''aW1hZ2U='')))"
proof -
  have "\<not> str_in image_note nothing_found_message"
    by (simp add: image_note_def nothing_found_message_def)
  then show ?thesis
    by (simp add: truthy_def answer_question_def answer_question_traced_def
          generate_fallback_answer_def ex_search_q2)
qed

text \<open>
  C7, amended. With no hits the fallback answer is the fixed "nothing found" message
  and no links. Otherwise it is the header line followed, in hit-rank order, by an
  excerpt for each of the first 3 hits at most: a numbered line with the hit's title,
  then the snippet, which is the first 200 characters of the content followed by an
  ellipsis when the content is longer than 200 characters and the whole content
  otherwise; when an image was supplied the fixed note on image analysis closes the
  answer. The links are those of the excerpted hits, in the same order.
\<close>

theorem fallback_answer_composition:
  "generate_fallback_answer db question img =
     (let hits = take 3 (simple_search db question 3) in
        if hits = [] then \<lparr>ar_answer = nothing_found_message, ar_links = []\<rparr>
        else \<lparr>ar_answer = join [CHR 0x0A]
                 (fallback_header
                    # concat (map (\<lambda>(i, h). [excerpt_label i h, ''   '' @ content_snippet h, []])
                                (zip [1..<Suc (length hits)] hits))
                    @ (if truthy img then [image_note] else [])),
               ar_links = map hit_link hits\<rparr>)
   \<and> (200 < length (hit_text h) \<longrightarrow> content_snippet h = take 200 (hit_text h) @ ''...'')
   \<and> (length (hit_text h) \<le> 200 \<longrightarrow> content_snippet h = hit_text h)"
  by (simp add: generate_fallback_answer_eq content_snippet_def)

theorem fallback_answer_composition_witness:
  "content_snippet \<lparr>hit_content = ex_doc_docker, hit_score = 21\<rparr>
     = replicate 200 (CHR ''x'') @ ''...''
   \<and> content_snippet \<lparr>hit_content = ex_doc_podman, hit_score = 20\<rparr> = replicate 50 (CHR ''y'')"
  using fallback_answer_composition [where h = "\<lparr>hit_content = ex_doc_docker, hit_score = 21\<rparr>"]
        fallback_answer_composition [where h = "\<lparr>hit_content = ex_doc_podman, hit_score = 20\<rparr>"]
  by (simp add: hit_text_def ex_doc_docker_def ex_doc_podman_def)

text \<open>
  C8. A vector search with no loaded index or with an empty payload list returns the
  empty list. Otherwise the index is asked for \<open>min(top_k, corpus_size)\<close> neighbours;
  each returned index other than \<open>-1\<close> is paired, in order, with its document and its
  similarity, and the index \<open>-1\<close> is skipped.
\<close>

theorem vector_search_results:
  "(vs_index vs = None \<or> vs_documents vs = [] \<longrightarrow> vector_store_search vs query top_k = Inr [])
   \<and> (vs_index vs = Some index \<and> vs_documents vs \<noteq> []
        \<and> index query (min top_k (int (length (vs_documents vs)))) = Inr pairs
        \<and> (\<forall>(s, i) \<in> set pairs. - 1 \<le> i \<and> i < int (length (vs_documents vs)))
      \<longrightarrow> vector_store_search vs query top_k =
            Inr (map (\<lambda>(s, i). (vs_documents vs ! nat i, s))
                   (filter (\<lambda>(s, i). i \<noteq> - 1) pairs)))"
  by (auto simp: vector_store_search_def collect_results_eq split: option.splits)

theorem vector_search_results_witness:
  "vector_store_search \<lparr>vs_index = None, vs_documents = [ex_vdoc_a, ex_vdoc_b]\<rparr> ''docker'' 5 = Inr []
   \<and> vector_store_search \<lparr>vs_index = Some ex_index, vs_documents = [ex_vdoc_a, ex_vdoc_b]\<rparr> ''docker'' 5
       = Inr [(ex_vdoc_b, 9 / 10)]"
  using vector_search_results [where vs = "\<lparr>vs_index = None, vs_documents = [ex_vdoc_a, ex_vdoc_b]\<rparr>"
          and query = "''docker''" and top_k = 5]
        vector_search_results [where vs = "\<lparr>vs_index = Some ex_index, vs_documents = [ex_vdoc_a, ex_vdoc_b]\<rparr>"
          and query = "''docker''" and top_k = 5 and index = ex_index
          and pairs = "[(9 / 10, 1), (- 1, - 1)]"]
  by (simp add: ex_index_def)

text \<open>
  C9. Keyword retrieval never passes a failure on to its caller: when the corpus
  cannot be read the result is the empty hit list, and over an empty corpus the
  result is the empty hit list for every question and every \<open>top_k\<close>.
\<close>

theorem simple_search_never_raises:
  "simple_search (Inl e) question top_k = []
   \<and> simple_search (Inr []) question top_k = []
   \<and> simple_search_body (Inr []) question top_k = Inr []"
  by (simp add: simple_search_def simple_search_body_def)

text \<open>
  C10. The two-point bonus compares the URL with the answer as written and the
  lowercase title with the lowercase answer. A link whose URL occurs in the answer
  only in another letter case, and whose title does not occur, gets no bonus.
\<close>

theorem url_bonus_case_sensitive:
  "(str_in (link_url l) answer \<or> str_in (lower (link_text l)) (lower answer) \<longrightarrow>
      link_score question answer l =
        title_relevance (split (lower question)) (lower (link_text l)) 0 + 2)
   \<and> (\<not> str_in (link_url l) answer \<and> str_in (lower (link_url l)) (lower answer)
        \<and> \<not> str_in (lower (link_text l)) (lower answer) \<longrightarrow>
      link_score question answer l =
        title_relevance (split (lower question)) (lower (link_text l)) 0)"
  by (simp add: link_score_def Let_def)

theorem url_bonus_case_sensitive_witness:
  "link_score ''where is the guide'' ''See https://tds.example/guide''
      \<lparr>link_url = ''https://TDS.example/Guide'', link_text = ''Setup Guide''\<rparr> = 1
   \<and> link_score ''where is the guide'' ''Read the SETUP GUIDE first''
      \<lparr>link_url = ''https://TDS.example/Guide'', link_text = ''Setup Guide''\<rparr> = 3"
  using url_bonus_case_sensitive [where question = "''where is the guide''"
          and answer = "''See https://tds.example/guide''"
          and l = "\<lparr>link_url = ''https://TDS.example/Guide'', link_text = ''Setup Guide''\<rparr>"]
        url_bonus_case_sensitive [where question = "''where is the guide''"
          and answer = "''Read the SETUP GUIDE first''"
          and l = "\<lparr>link_url = ''https://TDS.example/Guide'', link_text = ''Setup Guide''\<rparr>"]
  by (simp add: lower_def lower_char_def split_def is_space_def)

end
